theory Spec2Isabelle
  imports Main "HOL-Library.Word"
begin

section \<open>Data model\<close>

text \<open>
  The TypeScript class \<open>TeamDBImpl\<close> works on four tables through TypeORM repositories.
  A table is the list of its rows; a query without an order returns the rows in list
  order, so \<open>findOne\<close> is the first row that satisfies the criteria. Identifiers and
  timestamps are strings, as in the source (\<open>uuidv4()\<close>, \<open>toISOString()\<close>); the values
  the source draws from the random generator and the clock are arguments of the model.
\<close>

datatype TeamMemberRole = owner | member

text \<open>The codes the source passes to \<open>ResponseError\<close>, and the rejection of a write by the
  backing store (the awaited promise rejects; the source never catches it).\<close>

datatype error = BAD_REQUEST | NOT_FOUND | CONFLICT | INVALID_VALUE | STORAGE_FAILURE

record DBTeam =
  t_id :: string
  t_name :: string
  t_slug :: string
  t_creationTime :: string
  t_markedDeleted :: bool
  t_deleted :: bool

record DBTeamMembership =
  m_id :: string
  m_teamId :: string
  m_userId :: string
  m_role :: TeamMemberRole
  m_creationTime :: string
  m_deleted :: bool

text \<open>\<open>invitedEmail\<close> is an optional property: \<open>None\<close> is JavaScript's \<open>undefined\<close>.\<close>

record DBTeamMembershipInvite =
  i_id :: string
  i_teamId :: string
  i_role :: TeamMemberRole
  i_creationTime :: string
  i_invalidationTime :: string
  i_invitedEmail :: "string option"

record DBOrgSettings =
  s_orgId :: string
  s_workspaceSharingDisabled :: bool
  s_deleted :: bool

record db =
  teams :: "DBTeam list"
  memberships :: "DBTeamMembership list"
  invites :: "DBTeamMembershipInvite list"
  orgSettings :: "DBOrgSettings list"

section \<open>Repository operations\<close>

text \<open>\<open>update_first P f\<close> rewrites the first row that satisfies \<open>P\<close> and no other row.\<close>

fun update_first :: "('a \<Rightarrow> bool) \<Rightarrow> ('a \<Rightarrow> 'a) \<Rightarrow> 'a list \<Rightarrow> 'a list" where
  "update_first P f [] = []"
| "update_first P f (x # xs) = (if P x then f x # xs else x # update_first P f xs)"

text \<open>
  \<open>repo.save(entity)\<close> for a table whose primary key is \<open>id\<close>: the row with the entity's
  key is overwritten, and the entity is inserted when no row has that key.
\<close>

definition save_by_id :: "('a \<Rightarrow> string) \<Rightarrow> 'a \<Rightarrow> 'a list \<Rightarrow> 'a list" where
  "save_by_id key e xs =
     (if key e \<in> set (map key xs)
      then update_first (\<lambda>x. key x = key e) (\<lambda>_. e) xs
      else xs @ [e])"

section \<open>Invite store\<close>

text \<open>The filter of \<open>findGenericInviteByTeamId\<close>:
  \<open>i.invalidationTime === "" && !i.invitedEmail\<close>; an empty string is falsy.\<close>

definition is_generic_valid :: "DBTeamMembershipInvite \<Rightarrow> bool" where
  "is_generic_valid i \<longleftrightarrow>
     i_invalidationTime i = '''' \<and> (i_invitedEmail i = None \<or> i_invitedEmail i = Some '''')"

definition findGenericInviteByTeamId :: "string \<Rightarrow> db \<Rightarrow> DBTeamMembershipInvite option" where
  "findGenericInviteByTeamId teamId d =
     (case filter is_generic_valid (filter (\<lambda>i. i_teamId i = teamId) (invites d)) of
        [] \<Rightarrow> None
      | i # _ \<Rightarrow> Some i)"

text \<open>What one call of \<open>resetGenericInvite\<close> reads from its environment: the fresh
  identifier and the two clock readings, in the order of the source.\<close>

record reset_env =
  r_invalidatedAt :: string
  r_newId :: string
  r_createdAt :: string

definition newInvite :: "string \<Rightarrow> reset_env \<Rightarrow> DBTeamMembershipInvite" where
  "newInvite teamId e =
     \<lparr> i_id = r_newId e, i_teamId = teamId, i_role = member,
       i_creationTime = r_createdAt e, i_invalidationTime = '''', i_invitedEmail = None \<rparr>"

definition resetGenericInvite :: "string \<Rightarrow> reset_env \<Rightarrow> db \<Rightarrow> DBTeamMembershipInvite \<times> db" where
  "resetGenericInvite teamId e d =
     (let d1 = (case findGenericInviteByTeamId teamId d of
                  None \<Rightarrow> d
                | Some invite \<Rightarrow>
                    if i_invalidationTime invite = ''''
                    then d\<lparr>invites :=
                           save_by_id i_id (invite\<lparr>i_invalidationTime := r_invalidatedAt e\<rparr>) (invites d)\<rparr>
                    else d)
      in (newInvite teamId e, d1\<lparr>invites := save_by_id i_id (newInvite teamId e) (invites d1)\<rparr>))"

text \<open>\<open>N\<close> calls in sequence, one environment per call.\<close>

fun resetGenericInvites :: "string \<Rightarrow> reset_env list \<Rightarrow> db \<Rightarrow> db" where
  "resetGenericInvites teamId [] d = d"
| "resetGenericInvites teamId (e # es) d =
     resetGenericInvites teamId es (snd (resetGenericInvite teamId e d))"

definition valid_generic_of :: "string \<Rightarrow> db \<Rightarrow> DBTeamMembershipInvite list" where
  "valid_generic_of teamId d =
     filter (\<lambda>i. i_teamId i = teamId \<and> is_generic_valid i) (invites d)"

section \<open>Organization store\<close>

text \<open>\<open>teamRepo.findOne({ id, deleted: false, markedDeleted: false })\<close>.\<close>

definition findTeamById :: "string \<Rightarrow> db \<Rightarrow> DBTeam option" where
  "findTeamById teamId d =
     find (\<lambda>t. t_id t = teamId \<and> \<not> t_deleted t \<and> \<not> t_markedDeleted t) (teams d)"

text \<open>\<open>teamRepo.findOne(teamId)\<close>: the lookup by primary key alone, with no filter.\<close>

definition findTeamByPrimaryKey :: "string \<Rightarrow> db \<Rightarrow> DBTeam option" where
  "findTeamByPrimaryKey teamId d = find (\<lambda>t. t_id t = teamId) (teams d)"

text \<open>\<open>teamRepo.findOne({ slug, deleted: false, markedDeleted: false })\<close>.\<close>

definition findTeamBySlug :: "string \<Rightarrow> db \<Rightarrow> DBTeam option" where
  "findTeamBySlug slug d =
     find (\<lambda>t. t_slug t = slug \<and> \<not> t_deleted t \<and> \<not> t_markedDeleted t) (teams d)"

text \<open>
  \<open>x && x.trim()\<close> on an optional string: \<open>undefined\<close> and the empty string are falsy and
  are returned as they are. \<open>String.prototype.trim\<close> belongs to the language runtime and is
  an argument of the model.
\<close>

definition and_trim :: "(string \<Rightarrow> string) \<Rightarrow> string option \<Rightarrow> string option" where
  "and_trim trim x =
     (case x of None \<Rightarrow> None | Some s \<Rightarrow> if s = '''' then Some '''' else Some (trim s))"

definition falsy :: "string option \<Rightarrow> bool" where
  "falsy x \<longleftrightarrow> x = None \<or> x = Some ''''"

text \<open>The regular expression \<open>/^[A-Za-z0-9-]+$/\<close>.\<close>

definition slug_chars :: string where
  "slug_chars = ''ABCDEFGHIJKLMNOPQRSTUVWXYZabcdefghijklmnopqrstuvwxyz0123456789-''"

definition slug_pattern :: "string \<Rightarrow> bool" where
  "slug_pattern s \<longleftrightarrow> s \<noteq> '''' \<and> list_all (\<lambda>c. c \<in> set slug_chars) s"

text \<open>
  \<open>updateTeam\<close>. Every \<open>throw\<close> comes before the only write, so a failure returns the
  error alone and the tables are as before.
\<close>

definition updateTeam ::
  "(string \<Rightarrow> string) \<Rightarrow> string \<Rightarrow> string option \<Rightarrow> string option \<Rightarrow> db \<Rightarrow> error + (DBTeam \<times> db)" where
  "updateTeam trim teamId team_name team_slug d =
     (let name = and_trim trim team_name; slug = and_trim trim team_slug in
      if falsy name \<and> falsy slug then Inl BAD_REQUEST
      else case findTeamById teamId d of
        None \<Rightarrow> Inl NOT_FOUND
      | Some existingTeam \<Rightarrow>
          if Some (t_name existingTeam) = name \<and> Some (t_slug existingTeam) = slug
          then Inr (existingTeam, d)
          else if \<not> falsy name \<and> length (the name) > 32 then Inl INVALID_VALUE
          else
            let t1 = (if \<not> falsy name then existingTeam\<lparr>t_name := the name\<rparr> else existingTeam) in
            if \<not> falsy slug \<and> t_slug existingTeam \<noteq> the slug
            then
              if length (the slug) > 63 then Inl INVALID_VALUE
              else if \<not> slug_pattern (the slug) then Inl BAD_REQUEST
              else if findTeamBySlug (the slug) d \<noteq> None then Inl INVALID_VALUE
              else
                let t2 = t1\<lparr>t_slug := the slug\<rparr> in
                Inr (t2, d\<lparr>teams := save_by_id t_id t2 (teams d)\<rparr>)
            else Inr (t1, d\<lparr>teams := save_by_id t_id t1 (teams d)\<rparr>))"

text \<open>
  What one call of \<open>createTeam\<close> reads from its environment, in the order of the source:
  the hexadecimal form of \<open>randomBytes(4)\<close>, the identifier and creation time of the team,
  the identifier of the membership, and whether the backing store accepts the membership
  write.
\<close>

datatype write_outcome = Written | Rejected

record create_env =
  c_suffix :: string
  c_teamId :: string
  c_now :: string
  c_membershipId :: string
  c_membershipWrite :: write_outcome

text \<open>
  The first half of \<open>createTeam\<close>: the validation and the transaction
  \<open>em.transaction(...)\<close>, which looks the slug up and saves the team row. \<open>slugify\<close> is a
  third-party library and an argument of the model.
\<close>

definition createTeam_tx ::
  "(string \<Rightarrow> string) \<Rightarrow> (string \<Rightarrow> string) \<Rightarrow> string \<Rightarrow> create_env \<Rightarrow> db \<Rightarrow> error + (DBTeam \<times> db)" where
  "createTeam_tx trim slugify name0 e d =
     (if name0 = '''' then Inl BAD_REQUEST
      else
        let name = trim name0 in
        if length name < 3 then Inl BAD_REQUEST
        else if length name > 64 then Inl BAD_REQUEST
        else
          let slug = slugify name in
          if length slug < 3 then Inl BAD_REQUEST
          else
            let slug' = (if findTeamBySlug slug d \<noteq> None then slug @ ''-'' @ c_suffix e else slug);
                team = \<lparr> t_id = c_teamId e, t_name = name, t_slug = slug',
                         t_creationTime = c_now e, t_markedDeleted = False, t_deleted = False \<rparr>
            in Inr (team, d\<lparr>teams := save_by_id t_id team (teams d)\<rparr>))"

definition ownerMembership :: "string \<Rightarrow> DBTeam \<Rightarrow> create_env \<Rightarrow> DBTeamMembership" where
  "ownerMembership userId team e =
     \<lparr> m_id = c_membershipId e, m_teamId = t_id team, m_userId = userId, m_role = owner,
       m_creationTime = t_creationTime team, m_deleted = False \<rparr>"

text \<open>
  \<open>createTeam\<close>: the transaction commits, and only then \<open>membershipRepo.save\<close> is issued on
  a repository outside the transaction. The result carries the tables as well when the
  operation fails, since a failure of the second write leaves the first one in place.
\<close>

definition createTeam ::
  "(string \<Rightarrow> string) \<Rightarrow> (string \<Rightarrow> string) \<Rightarrow> string \<Rightarrow> string \<Rightarrow> create_env \<Rightarrow> db \<Rightarrow> (error + DBTeam) \<times> db" where
  "createTeam trim slugify userId name0 e d =
     (case createTeam_tx trim slugify name0 e d of
        Inl err \<Rightarrow> (Inl err, d)
      | Inr (team, d1) \<Rightarrow>
          (case c_membershipWrite e of
             Rejected \<Rightarrow> (Inl STORAGE_FAILURE, d1)
           | Written \<Rightarrow>
               (Inr team,
                d1\<lparr>memberships := save_by_id m_id (ownerMembership userId team e) (memberships d1)\<rparr>)))"

section \<open>Org settings store\<close>

text \<open>
  The settings entity as the code holds it in memory: after
  \<open>team.workspaceSharingDisabled = settings.workspaceSharingDisabled\<close> the property is
  \<open>undefined\<close> when the input omits it. \<open>Partial<OrganizationSettings>\<close> has the one property
  \<open>workspaceSharingDisabled\<close>, so the input is a \<open>bool option\<close>.
\<close>

record OrgSettingsEntity =
  e_orgId :: string
  e_workspaceSharingDisabled :: "bool option"
  e_deleted :: bool

definition load_settings :: "DBOrgSettings \<Rightarrow> OrgSettingsEntity" where
  "load_settings r =
     \<lparr> e_orgId = s_orgId r, e_workspaceSharingDisabled = Some (s_workspaceSharingDisabled r),
       e_deleted = s_deleted r \<rparr>"

text \<open>
  \<open>repo.save(entity)\<close> on a loaded entity is TypeORM's update of the row the entity was
  loaded from. TypeORM is a third-party library; its \<open>save\<close> writes the columns whose
  property is defined and skips a property that is \<open>undefined\<close> (its repository
  documentation: \<open>save\<close> "supports partial updating since all undefined properties are
  skipped"). So the row keeps the column of a property that the code has set to
  \<open>undefined\<close>.
\<close>

definition write_settings :: "OrgSettingsEntity \<Rightarrow> DBOrgSettings \<Rightarrow> DBOrgSettings" where
  "write_settings ent r =
     r\<lparr> s_workspaceSharingDisabled :=
           (case e_workspaceSharingDisabled ent of
              None \<Rightarrow> s_workspaceSharingDisabled r
            | Some b \<Rightarrow> b),
        s_deleted := e_deleted ent \<rparr>"

definition live_settings_of :: "string \<Rightarrow> DBOrgSettings \<Rightarrow> bool" where
  "live_settings_of orgId r \<longleftrightarrow> s_orgId r = orgId \<and> \<not> s_deleted r"

text \<open>
  \<open>setOrgSettings\<close>. The insert of the first branch leaves an omitted column to its
  default, which the entity declaration fixes and the model takes as the argument
  \<open>dflt\<close>. The \<open>save\<close> of the second branch is not awaited in the source; the model
  applies it at once.
\<close>

definition setOrgSettings :: "bool \<Rightarrow> string \<Rightarrow> bool option \<Rightarrow> db \<Rightarrow> db" where
  "setOrgSettings dflt orgId settings d =
     (case find (live_settings_of orgId) (orgSettings d) of
        None \<Rightarrow>
          d\<lparr>orgSettings := orgSettings d @
               [\<lparr> s_orgId = orgId,
                  s_workspaceSharingDisabled = (case settings of None \<Rightarrow> dflt | Some b \<Rightarrow> b),
                  s_deleted = False \<rparr>]\<rparr>
      | Some row \<Rightarrow>
          let team = (load_settings row)\<lparr>e_workspaceSharingDisabled := settings\<rparr> in
          d\<lparr>orgSettings := update_first (live_settings_of orgId) (write_settings team) (orgSettings d)\<rparr>)"

text \<open>\<open>deleteOrgSettings\<close>; its \<open>save\<close> is not awaited either.\<close>

definition deleteOrgSettings :: "string \<Rightarrow> db \<Rightarrow> db" where
  "deleteOrgSettings orgId d =
     (case find (live_settings_of orgId) (orgSettings d) of
        None \<Rightarrow> d
      | Some row \<Rightarrow>
          let orgSettings' = (load_settings row)\<lparr>e_deleted := True\<rparr> in
          d\<lparr>orgSettings := update_first (live_settings_of orgId) (write_settings orgSettings') (orgSettings d)\<rparr>)"

text \<open>\<open>deleteTeam\<close> has no \<open>throw\<close>: its result is the tables alone.\<close>

definition deleteTeam :: "string \<Rightarrow> db \<Rightarrow> db" where
  "deleteTeam teamId d =
     (case findTeamById teamId d of
        None \<Rightarrow> d
      | Some team \<Rightarrow>
          deleteOrgSettings teamId
            (d\<lparr>teams := save_by_id t_id (team\<lparr>t_markedDeleted := True\<rparr>) (teams d)\<rparr>))"

section \<open>Membership store\<close>

definition live_membership :: "string \<Rightarrow> string \<Rightarrow> DBTeamMembership \<Rightarrow> bool" where
  "live_membership teamId userId m \<longleftrightarrow> m_teamId m = teamId \<and> m_userId m = userId \<and> \<not> m_deleted m"

datatype add_result = added | already_member

record add_env =
  a_newId :: string
  a_now :: string

definition addMemberToTeam ::
  "string \<Rightarrow> string \<Rightarrow> add_env \<Rightarrow> db \<Rightarrow> error + (add_result \<times> db)" where
  "addMemberToTeam userId teamId e d =
     (case findTeamByPrimaryKey teamId d of
        None \<Rightarrow> Inl NOT_FOUND
      | Some team \<Rightarrow>
          if t_deleted team then Inl NOT_FOUND
          else (case find (live_membership teamId userId) (memberships d) of
                  Some membership \<Rightarrow> Inr (already_member, d)
                | None \<Rightarrow>
                    Inr (added,
                         d\<lparr>memberships :=
                             save_by_id m_id
                               \<lparr> m_id = a_newId e, m_teamId = t_id team, m_userId = userId,
                                 m_role = member, m_creationTime = a_now e, m_deleted = False \<rparr>
                               (memberships d)\<rparr>)))"

text \<open>\<open>membershipRepo.count({ teamId, role: "owner", deleted: false })\<close>.\<close>

definition ownerCount :: "string \<Rightarrow> db \<Rightarrow> nat" where
  "ownerCount teamId d =
     length (filter (\<lambda>m. m_teamId m = teamId \<and> m_role m = owner \<and> \<not> m_deleted m) (memberships d))"

text \<open>The count the specification describes: the live owner rows of the organization
  other than the rows of the target user.\<close>

definition ownerCountExcluding :: "string \<Rightarrow> string \<Rightarrow> db \<Rightarrow> nat" where
  "ownerCountExcluding teamId userId d =
     length (filter (\<lambda>m. m_teamId m = teamId \<and> m_role m = owner \<and> \<not> m_deleted m \<and> m_userId m \<noteq> userId)
               (memberships d))"

definition setTeamMemberRole :: "string \<Rightarrow> string \<Rightarrow> TeamMemberRole \<Rightarrow> db \<Rightarrow> error + db" where
  "setTeamMemberRole userId teamId role d =
     (case findTeamByPrimaryKey teamId d of
        None \<Rightarrow> Inl NOT_FOUND
      | Some team \<Rightarrow>
          if t_deleted team then Inl NOT_FOUND
          else if role \<noteq> owner \<and> ownerCount teamId d \<le> 1 then Inl CONFLICT
          else (case find (live_membership teamId userId) (memberships d) of
                  None \<Rightarrow> Inl NOT_FOUND
                | Some membership \<Rightarrow>
                    Inr (d\<lparr>memberships :=
                           save_by_id m_id (membership\<lparr>m_role := role\<rparr>) (memberships d)\<rparr>)))"

section \<open>SSO client configuration store\<close>

text \<open>
  The Go side. \<open>uuid.UUID\<close> is an array of 16 bytes, here a 128-bit word, and \<open>uuid.Nil\<close>
  is zero. \<open>EncryptedJSON[OIDCSpec]\<close> is the specification itself; the encryption at rest is
  not modelled. \<open>time.Time\<close> is a number, zero being the zero time.
\<close>

type_synonym uuid = "128 word"

record OIDCSpec =
  ClientID :: string
  ClientSecret :: string
  RedirectURL :: string
  Scopes :: "string list"

record OIDCClientConfig =
  ID :: uuid
  OrganizationID :: uuid
  Issuer :: string
  Data :: OIDCSpec
  Active :: bool
  LastModified :: nat

text \<open>A row of \<open>d_b_oidc_client_config\<close>: the fields of the struct and the column
  \<open>deleted\<close>, which the struct keeps in a blank field and never writes.\<close>

record oidc_row =
  row_config :: OIDCClientConfig
  row_deleted :: bool

datatype go_error = id_must_be_set | issuer_must_be_set | failed_to_create

text \<open>
  \<open>CreateOIDCClientConfig\<close>. \<open>Create(&cfg)\<close> inserts the struct as it is: a zero-valued
  field with a \<open>default\<close> tag takes the default of the column (\<open>0\<close> for \<open>active\<close>, the current
  time for \<open>_lastModified\<close>), any other value is written. The insert fails when the
  primary key is taken.
\<close>

definition CreateOIDCClientConfig ::
  "nat \<Rightarrow> OIDCClientConfig \<Rightarrow> oidc_row list \<Rightarrow> go_error + (OIDCClientConfig \<times> oidc_row list)" where
  "CreateOIDCClientConfig now cfg tbl =
     (if ID cfg = 0 then Inl id_must_be_set
      else if Issuer cfg = '''' then Inl issuer_must_be_set
      else if ID cfg \<in> set (map (\<lambda>r. ID (row_config r)) tbl) then Inl failed_to_create
      else
        let stored = cfg\<lparr>LastModified := (if LastModified cfg = 0 then now else LastModified cfg)\<rparr>
        in Inr (cfg, tbl @ [\<lparr> row_config = stored, row_deleted = False \<rparr>]))"

section \<open>Concrete states\<close>

text \<open>Two organizations; \<open>u1\<close> owns the first and \<open>u2\<close> is a member of it. The first has a
  valid generic invite that grants the owner role, and a settings row.\<close>

definition acme :: DBTeam where
  "acme = \<lparr> t_id = ''t1'', t_name = ''Acme'', t_slug = ''acme'',
            t_creationTime = ''2023-01-01T00:00:00.000Z'', t_markedDeleted = False, t_deleted = False \<rparr>"

definition beta :: DBTeam where
  "beta = \<lparr> t_id = ''t2'', t_name = ''Beta'', t_slug = ''beta'',
            t_creationTime = ''2023-01-02T00:00:00.000Z'', t_markedDeleted = False, t_deleted = False \<rparr>"

definition membership_of :: "string \<Rightarrow> string \<Rightarrow> TeamMemberRole \<Rightarrow> DBTeamMembership" where
  "membership_of mid userId role =
     \<lparr> m_id = mid, m_teamId = ''t1'', m_userId = userId, m_role = role,
       m_creationTime = ''2023-01-01T00:00:00.000Z'', m_deleted = False \<rparr>"

definition old_invite :: DBTeamMembershipInvite where
  "old_invite = \<lparr> i_id = ''i0'', i_teamId = ''t1'', i_role = owner,
                  i_creationTime = ''2023-01-01T00:00:00.000Z'', i_invalidationTime = '''',
                  i_invitedEmail = None \<rparr>"

definition db_one_owner :: db where
  "db_one_owner =
     \<lparr> teams = [acme, beta],
       memberships = [membership_of ''m1'' ''u1'' owner, membership_of ''m2'' ''u2'' member],
       invites = [old_invite],
       orgSettings = [\<lparr> s_orgId = ''t1'', s_workspaceSharingDisabled = True, s_deleted = False \<rparr>] \<rparr>"

definition db_two_owners :: db where
  "db_two_owners =
     db_one_owner\<lparr>memberships := [membership_of ''m1'' ''u1'' owner, membership_of ''m2'' ''u2'' owner]\<rparr>"

definition db_empty :: db where
  "db_empty = \<lparr> teams = [], memberships = [], invites = [], orgSettings = [] \<rparr>"

definition env_add :: "string \<Rightarrow> add_env" where
  "env_add mid = \<lparr> a_newId = mid, a_now = ''2023-03-01T00:00:00.000Z'' \<rparr>"

definition env_reset :: "string \<Rightarrow> reset_env" where
  "env_reset iid = \<lparr> r_invalidatedAt = ''2023-04-01T00:00:00.000Z'', r_newId = iid,
                      r_createdAt = ''2023-04-01T00:00:00.001Z'' \<rparr>"

definition env_create :: "write_outcome \<Rightarrow> create_env" where
  "env_create w = \<lparr> c_suffix = ''0a1b2c3d'', c_teamId = ''t9'', c_now = ''2023-05-01T00:00:00.000Z'',
                     c_membershipId = ''m9'', c_membershipWrite = w \<rparr>"

definition okta :: OIDCClientConfig where
  "okta = \<lparr> ID = 1, OrganizationID = 2, Issuer = ''https://issuer.example'',
            Data = \<lparr> ClientID = ''c'', ClientSecret = ''s'', RedirectURL = ''r'', Scopes = [] \<rparr>,
            Active = True, LastModified = 5 \<rparr>"

section \<open>Generic lemmas on the repository operations\<close>

lemma save_by_id_fresh: "key e \<notin> set (map key xs) \<Longrightarrow> save_by_id key e xs = xs @ [e]"
  by (simp add: save_by_id_def)

lemma save_by_id_mem: "e \<in> set (save_by_id key e xs)"
proof (cases "key e \<in> set (map key xs)")
  case True
  then have "e \<in> set (update_first (\<lambda>x. key x = key e) (\<lambda>_. e) xs)"
    by (induction xs) auto
  with True show ?thesis by (simp add: save_by_id_def)
next
  case False
  then show ?thesis by (simp add: save_by_id_def)
qed

lemma find_append_fresh:
  "\<forall>x \<in> set xs. \<not> P x \<Longrightarrow> find P (xs @ [e]) = (if P e then Some e else None)"
  by (induction xs) auto

lemma filter_none: "\<forall>x \<in> set xs. \<not> P x \<Longrightarrow> filter P xs = []"
  by (induction xs) auto

lemma update_first_at:
  "\<forall>y \<in> set ys. \<not> P y \<Longrightarrow> P r \<Longrightarrow> update_first P f (ys @ r # zs) = ys @ f r # zs"
  by (induction ys) auto

lemma find_split:
  "find P xs = Some r \<Longrightarrow> \<exists>ys zs. xs = ys @ r # zs \<and> (\<forall>y \<in> set ys. \<not> P y) \<and> P r"
proof (induction xs)
  case Nil
  then show ?case by simp
next
  case (Cons x xs)
  show ?case
  proof (cases "P x")
    case True
    with Cons.prems have "x = r" by simp
    with True show ?thesis by (intro exI [of _ "[]"] exI [of _ xs]) simp
  next
    case False
    with Cons.prems have "find P xs = Some r" by simp
    from Cons.IH [OF this] obtain ys zs where
      "xs = ys @ r # zs" "\<forall>y \<in> set ys. \<not> P y" "P r" by blast
    with False show ?thesis by (intro exI [of _ "x # ys"] exI [of _ zs]) simp
  qed
qed

lemma update_by_key_split:
  "v \<in> set xs \<Longrightarrow> distinct (map key xs) \<Longrightarrow>
     \<exists>ys zs. xs = ys @ v # zs \<and> update_first (\<lambda>x. key x = key v) f xs = ys @ f v # zs"
proof (induction xs)
  case Nil
  then show ?case by simp
next
  case (Cons x xs)
  show ?case
  proof (cases "x = v")
    case True
    then show ?thesis by (intro exI [of _ "[]"] exI [of _ xs]) simp
  next
    case False
    with Cons.prems have in_xs: "v \<in> set xs" and d: "distinct (map key xs)"
      and k: "key x \<notin> key ` set xs" by auto
    from in_xs k have "key x \<noteq> key v" by force
    moreover from Cons.IH [OF in_xs d] obtain ys zs where
      "xs = ys @ v # zs" "update_first (\<lambda>x. key x = key v) f xs = ys @ f v # zs" by blast
    ultimately show ?thesis by (intro exI [of _ "x # ys"] exI [of _ zs]) simp
  qed
qed

lemma deleteOrgSettings_teams: "teams (deleteOrgSettings orgId d) = teams d"
  by (simp add: deleteOrgSettings_def Let_def split: option.splits)

section \<open>Lemmas on the reset of the generic invite\<close>

lemma findGenericInviteByTeamId_valid:
  "findGenericInviteByTeamId t d = (case valid_generic_of t d of [] \<Rightarrow> None | i # _ \<Rightarrow> Some i)"
  by (simp add: findGenericInviteByTeamId_def valid_generic_of_def)

lemma newInvite_valid: "i_teamId (newInvite t e) = t \<and> is_generic_valid (newInvite t e)"
  by (simp add: newInvite_def is_generic_valid_def)

lemma resetGenericInvite_step:
  assumes pk: "distinct (map i_id (invites d))"
    and one: "length (valid_generic_of t d) \<le> 1"
    and fresh: "r_newId e \<notin> set (map i_id (invites d))"
    and ts: "r_invalidatedAt e \<noteq> ''''"
  defines "d' \<equiv> snd (resetGenericInvite t e d)"
  shows "map i_id (invites d') = map i_id (invites d) @ [r_newId e]"
    and "valid_generic_of t d' = [newInvite t e]"
    and "\<forall>i \<in> set (invites d). i_invalidationTime i \<noteq> '''' \<longrightarrow> i \<in> set (invites d')"
    and "\<forall>i \<in> set (valid_generic_of t d).
           \<exists>j \<in> set (invites d'). i_id j = i_id i \<and> i_invalidationTime j \<noteq> ''''"
proof -
  let ?vg = "\<lambda>i. i_teamId i = t \<and> is_generic_valid i"
  have new_id: "i_id (newInvite t e) = r_newId e" by (simp add: newInvite_def)
  have all: "map i_id (invites d') = map i_id (invites d) @ [r_newId e] \<and>
      valid_generic_of t d' = [newInvite t e] \<and>
      (\<forall>i \<in> set (invites d). i_invalidationTime i \<noteq> '''' \<longrightarrow> i \<in> set (invites d')) \<and>
      (\<forall>i \<in> set (valid_generic_of t d).
           \<exists>j \<in> set (invites d'). i_id j = i_id i \<and> i_invalidationTime j \<noteq> '''')"
  proof (cases "valid_generic_of t d")
    case Nil
    then have none: "findGenericInviteByTeamId t d = None"
      by (simp add: findGenericInviteByTeamId_valid)
    have inv': "invites d' = invites d @ [newInvite t e]"
      using fresh by (simp add: d'_def resetGenericInvite_def none Let_def save_by_id_fresh new_id)
    have "filter ?vg (invites d) = []"
      using Nil by (simp add: valid_generic_of_def)
    then have "valid_generic_of t d' = [newInvite t e]"
      using newInvite_valid [of t e] by (simp add: valid_generic_of_def inv')
    then show ?thesis
      using Nil by (simp add: inv' new_id)
  next
    case (Cons v rest)
    with one have V: "valid_generic_of t d = [v]" by simp
    then have found: "findGenericInviteByTeamId t d = Some v"
      by (simp add: findGenericInviteByTeamId_valid)
    from V have "v \<in> set (filter ?vg (invites d))"
      by (simp add: valid_generic_of_def)
    then have mem: "v \<in> set (invites d)" and vvalid: "i_invalidationTime v = ''''"
      by (auto simp: is_generic_valid_def)
    let ?v' = "v\<lparr>i_invalidationTime := r_invalidatedAt e\<rparr>"
    from update_by_key_split [OF mem pk, of "\<lambda>_. ?v'"] obtain ys zs where
      split: "invites d = ys @ v # zs"
      and upd: "update_first (\<lambda>x. i_id x = i_id v) (\<lambda>_. ?v') (invites d) = ys @ ?v' # zs"
      by blast
    have saved: "save_by_id i_id ?v' (invites d) = ys @ ?v' # zs"
      using mem upd by (simp add: save_by_id_def image_iff) metis
    have fresh1: "r_newId e \<notin> set (map i_id (ys @ ?v' # zs))"
      using fresh split by simp
    have inv': "invites d' = ys @ ?v' # zs @ [newInvite t e]"
      using save_by_id_fresh [of i_id "newInvite t e" "ys @ ?v' # zs"] fresh1
      by (simp add: d'_def resetGenericInvite_def found vvalid Let_def saved new_id)
    from V split have "filter ?vg ys @ filter ?vg (v # zs) = [v]"
      by (simp add: valid_generic_of_def)
    moreover from V have "?vg v"
      using \<open>v \<in> set (filter ?vg (invites d))\<close> by simp
    ultimately have empty: "filter ?vg ys = []" "filter ?vg zs = []"
      by (simp_all add: append_eq_Cons_conv)
    have notvalid: "\<not> is_generic_valid ?v'"
      using ts by (simp add: is_generic_valid_def)
    have B: "valid_generic_of t d' = [newInvite t e]"
      using empty notvalid newInvite_valid [of t e] by (simp add: valid_generic_of_def inv')
    have A: "map i_id (invites d') = map i_id (invites d) @ [r_newId e]"
      by (simp add: inv' split new_id)
    have C: "\<forall>i \<in> set (invites d). i_invalidationTime i \<noteq> '''' \<longrightarrow> i \<in> set (invites d')"
      using vvalid by (auto simp: inv' split)
    have D: "\<exists>j \<in> set (invites d'). i_id j = i_id v \<and> i_invalidationTime j \<noteq> ''''"
      using ts by (intro bexI [of _ ?v']) (simp_all add: inv')
    show ?thesis
      using A B C D by (simp add: V)
  qed
  from all show "map i_id (invites d') = map i_id (invites d) @ [r_newId e]" by blast
  from all show "valid_generic_of t d' = [newInvite t e]" by blast
  from all show "\<forall>i \<in> set (invites d). i_invalidationTime i \<noteq> '''' \<longrightarrow> i \<in> set (invites d')"
    by blast
  from all show "\<forall>i \<in> set (valid_generic_of t d).
           \<exists>j \<in> set (invites d'). i_id j = i_id i \<and> i_invalidationTime j \<noteq> ''''" by blast
qed

lemma resetGenericInvites_snoc:
  "resetGenericInvites t (es @ [e]) d = snd (resetGenericInvite t e (resetGenericInvites t es d))"
  by (induction es arbitrary: d) simp_all

lemma resetGenericInvites_invariant:
  "distinct (map i_id (invites d)) \<Longrightarrow> length (valid_generic_of t d) \<le> 1 \<Longrightarrow>
   distinct (map r_newId es) \<Longrightarrow> set (map r_newId es) \<inter> set (map i_id (invites d)) = {} \<Longrightarrow>
   \<forall>e \<in> set es. r_invalidatedAt e \<noteq> '''' \<Longrightarrow>
   map i_id (invites (resetGenericInvites t es d)) = map i_id (invites d) @ map r_newId es \<and>
   length (valid_generic_of t (resetGenericInvites t es d)) \<le> 1 \<and>
   (es \<noteq> [] \<longrightarrow> valid_generic_of t (resetGenericInvites t es d) = [newInvite t (last es)]) \<and>
   (\<forall>e \<in> set (butlast es). \<exists>j \<in> set (invites (resetGenericInvites t es d)).
       i_id j = r_newId e \<and> i_invalidationTime j \<noteq> '''')"
proof (induction es rule: rev_induct)
  case Nil
  then show ?case by simp
next
  case (snoc e es)
  let ?D = "resetGenericInvites t es d"
  let ?D' = "snd (resetGenericInvite t e ?D)"
  from snoc.prems have p: "distinct (map r_newId es)"
    "set (map r_newId es) \<inter> set (map i_id (invites d)) = {}"
    "\<forall>e \<in> set es. r_invalidatedAt e \<noteq> ''''"
    and e_new: "r_newId e \<notin> set (map r_newId es)" "r_newId e \<notin> set (map i_id (invites d))"
    and e_ts: "r_invalidatedAt e \<noteq> ''''"
    by auto
  from snoc.IH [OF snoc.prems(1,2) p] have
    ids: "map i_id (invites ?D) = map i_id (invites d) @ map r_newId es"
    and one: "length (valid_generic_of t ?D) \<le> 1"
    and lastv: "es \<noteq> [] \<longrightarrow> valid_generic_of t ?D = [newInvite t (last es)]"
    and prior: "\<forall>e \<in> set (butlast es). \<exists>j \<in> set (invites ?D).
       i_id j = r_newId e \<and> i_invalidationTime j \<noteq> ''''"
    by blast+
  have pk: "distinct (map i_id (invites ?D))"
    unfolding ids using snoc.prems(1) p(1,2) by auto
  have fresh: "r_newId e \<notin> set (map i_id (invites ?D))"
    unfolding ids using e_new by simp
  note step = resetGenericInvite_step [OF pk one fresh e_ts]
  have A: "map i_id (invites ?D') = map i_id (invites d) @ map r_newId (es @ [e])"
    using step(1) ids by simp
  have B: "valid_generic_of t ?D' = [newInvite t e]"
    by (rule step(2))
  have C: "\<exists>j \<in> set (invites ?D'). i_id j = r_newId x \<and> i_invalidationTime j \<noteq> ''''"
    if x: "x \<in> set es" for x
  proof (cases "x \<in> set (butlast es)")
    case True
    with prior obtain j where "j \<in> set (invites ?D)" "i_id j = r_newId x"
      "i_invalidationTime j \<noteq> ''''" by blast
    with step(3) show ?thesis by blast
  next
    case False
    from x have ne: "es \<noteq> []" by auto
    then have "set es = set (butlast es) \<union> {last es}"
      by (metis append_butlast_last_id set_append list.simps(15) empty_set)
    with x False have xl: "x = last es" by blast
    from ne lastv have "newInvite t (last es) \<in> set (valid_generic_of t ?D)" by simp
    with step(4) obtain j where "j \<in> set (invites ?D')"
      "i_id j = i_id (newInvite t (last es))" "i_invalidationTime j \<noteq> ''''" by blast
    with xl show ?thesis
      by (intro bexI [of _ j]) (simp_all add: newInvite_def)
  qed
  show ?case
    unfolding resetGenericInvites_snoc using A B C by simp
qed

section \<open>The concrete states, unfolded\<close>

lemmas demo_defs = acme_def beta_def membership_of_def old_invite_def db_one_owner_def
  db_two_owners_def db_empty_def env_add_def env_reset_def env_create_def okta_def

section \<open>Changing a role\<close>

text \<open>
  Claim C1, as the specification has it: \<open>setRole\<close> with a non-owner role counts the live
  owner memberships of the organization without the row of the target user and fails with
  Conflict exactly when that count is at most one; so demoting a member who is not an owner,
  in an organization with one live owner, is no Conflict.

  The code does otherwise in both respects. With the single owner \<open>u1\<close> and the member
  \<open>u2\<close>, setting \<open>u2\<close> to \<open>member\<close> is a Conflict. With the two owners \<open>u1\<close> and \<open>u2\<close>, the
  count without the row of \<open>u1\<close> is one, and still demoting \<open>u1\<close> is no Conflict.
\<close>

theorem setTeamMemberRole_excluding_count_counterexample:
  "setTeamMemberRole ''u2'' ''t1'' member db_one_owner = Inl CONFLICT \<and>
   ownerCount ''t1'' db_one_owner = 1 \<and>
   ownerCountExcluding ''t1'' ''u1'' db_two_owners = 1 \<and>
   setTeamMemberRole ''u1'' ''t1'' member db_two_owners \<noteq> Inl CONFLICT"
  by (simp add: setTeamMemberRole_def findTeamByPrimaryKey_def ownerCount_def
      ownerCountExcluding_def live_membership_def save_by_id_def demo_defs)

text \<open>
  Claim C1, amended: for an organization whose row exists and is not \<open>deleted\<close>,
  \<open>setTeamMemberRole\<close> with a role other than \<open>owner\<close> fails with \<open>CONFLICT\<close> exactly when
  the number of all live owner memberships of the organization, the target's own row
  included, is at most one.
\<close>

theorem setTeamMemberRole_conflict_iff:
  assumes "findTeamByPrimaryKey teamId d = Some team" and "\<not> t_deleted team" and "role \<noteq> owner"
  shows "setTeamMemberRole userId teamId role d = Inl CONFLICT \<longleftrightarrow> ownerCount teamId d \<le> 1"
  using assms by (simp add: setTeamMemberRole_def split: option.splits)

theorem setTeamMemberRole_conflict_iff_witness:
  "findTeamByPrimaryKey ''t1'' db_two_owners = Some acme \<and> \<not> t_deleted acme \<and> member \<noteq> owner \<and>
   ownerCount ''t1'' db_two_owners = 2 \<and>
   setTeamMemberRole ''u1'' ''t1'' member db_two_owners \<noteq> Inl CONFLICT"
proof -
  have h1: "findTeamByPrimaryKey ''t1'' db_two_owners = Some acme"
    by (simp add: findTeamByPrimaryKey_def demo_defs)
  have h2: "\<not> t_deleted acme" by (simp add: acme_def)
  have h3: "member \<noteq> owner" by simp
  have c: "ownerCount ''t1'' db_two_owners = 2"
    by (simp add: ownerCount_def demo_defs)
  show ?thesis
    using h1 h2 c setTeamMemberRole_conflict_iff [OF h1 h2 h3, of "''u1''"] by simp
qed

section \<open>Creating an organization\<close>

text \<open>
  Claim C2, as the specification has it: \<open>createOrganization\<close> inserts the organization and
  the owner membership of the creating user in one atomic transaction, so that no execution,
  also one that fails partway, leaves the organization row visible without its owner
  membership.

  In the code the transaction holds the team row alone. When the later membership write is
  rejected, the call fails and the team row stays, visible and without any membership.
\<close>

theorem createTeam_not_atomic_counterexample:
  "fst (createTeam (\<lambda>s. s) (\<lambda>s. s) ''u7'' ''gamma'' (env_create Rejected) db_empty) =
     Inl STORAGE_FAILURE \<and>
   findTeamById ''t9''
     (snd (createTeam (\<lambda>s. s) (\<lambda>s. s) ''u7'' ''gamma'' (env_create Rejected) db_empty)) \<noteq> None \<and>
   memberships
     (snd (createTeam (\<lambda>s. s) (\<lambda>s. s) ''u7'' ''gamma'' (env_create Rejected) db_empty)) = []"
  by (simp add: createTeam_def createTeam_tx_def findTeamBySlug_def findTeamById_def
      save_by_id_def Let_def demo_defs)

text \<open>
  Claim C2, amended: for a valid name and fresh identifiers, \<open>createTeam\<close> commits the team
  row in a transaction of its own, after which the team is visible and has no membership
  yet, and writes the owner membership of the creating user afterwards, outside the
  transaction. When that write succeeds, the team is returned and its only membership is
  the owner membership of the creating user; when it is rejected, the call fails and the
  committed team row stays.
\<close>

theorem createTeam_two_writes:
  assumes valid: "name0 \<noteq> ''''" "3 \<le> length (trim name0)" "length (trim name0) \<le> 64"
      "3 \<le> length (slugify (trim name0))"
    and fresh: "c_teamId e \<notin> set (map t_id (teams d))"
      "c_teamId e \<notin> set (map m_teamId (memberships d))"
      "c_membershipId e \<notin> set (map m_id (memberships d))"
  shows "\<exists>team d1. createTeam_tx trim slugify name0 e d = Inr (team, d1) \<and>
      t_id team = c_teamId e \<and> t_name team = trim name0 \<and>
      findTeamById (c_teamId e) d1 = Some team \<and>
      filter (\<lambda>m. m_teamId m = c_teamId e) (memberships d1) = [] \<and>
      (c_membershipWrite e = Rejected \<longrightarrow>
         createTeam trim slugify userId name0 e d = (Inl STORAGE_FAILURE, d1)) \<and>
      (c_membershipWrite e = Written \<longrightarrow>
         fst (createTeam trim slugify userId name0 e d) = Inr team \<and>
         findTeamById (c_teamId e) (snd (createTeam trim slugify userId name0 e d)) = Some team \<and>
         filter (\<lambda>m. m_teamId m = c_teamId e)
           (memberships (snd (createTeam trim slugify userId name0 e d))) =
           [\<lparr> m_id = c_membershipId e, m_teamId = c_teamId e, m_userId = userId, m_role = owner,
              m_creationTime = c_now e, m_deleted = False \<rparr>])"
proof -
  let ?slug = "slugify (trim name0)"
  let ?team = "\<lparr> t_id = c_teamId e, t_name = trim name0,
      t_slug = (if findTeamBySlug ?slug d \<noteq> None then ?slug @ ''-'' @ c_suffix e else ?slug),
      t_creationTime = c_now e, t_markedDeleted = False, t_deleted = False \<rparr>"
  let ?d1 = "d\<lparr>teams := teams d @ [?team]\<rparr>"
  have tx: "createTeam_tx trim slugify name0 e d = Inr (?team, ?d1)"
    using valid fresh(1) by (simp add: createTeam_tx_def Let_def save_by_id_fresh)
  have nomatch:
    "\<forall>t \<in> set (teams d). \<not> (t_id t = c_teamId e \<and> \<not> t_deleted t \<and> \<not> t_markedDeleted t)"
    using fresh(1) by (force simp: image_iff)
  have vis: "findTeamById (c_teamId e) ?d1 = Some ?team"
    unfolding findTeamById_def using find_append_fresh [OF nomatch] by simp
  have nom: "filter (\<lambda>m. m_teamId m = c_teamId e) (memberships d) = []"
    using fresh(2) by (intro filter_none) (force simp: image_iff)
  show ?thesis
    apply (rule exI [of _ ?team], rule exI [of _ ?d1])
    using tx vis nom fresh(3)
    by (simp add: createTeam_def ownerMembership_def save_by_id_fresh findTeamById_def)
qed

theorem createTeam_two_writes_witness:
  "''gamma'' \<noteq> '''' \<and> 3 \<le> length ''gamma'' \<and> length ''gamma'' \<le> 64 \<and>
   c_teamId (env_create Written) \<notin> set (map t_id (teams db_one_owner)) \<and>
   c_teamId (env_create Written) \<notin> set (map m_teamId (memberships db_one_owner)) \<and>
   c_membershipId (env_create Written) \<notin> set (map m_id (memberships db_one_owner)) \<and>
   filter (\<lambda>m. m_teamId m = ''t9'')
     (memberships (snd (createTeam (\<lambda>s. s) (\<lambda>s. s) ''u7'' ''gamma'' (env_create Written) db_one_owner))) =
     [\<lparr> m_id = ''m9'', m_teamId = ''t9'', m_userId = ''u7'', m_role = owner,
        m_creationTime = ''2023-05-01T00:00:00.000Z'', m_deleted = False \<rparr>]"
proof -
  have v1: "''gamma'' \<noteq> ''''" by simp
  have v2: "3 \<le> length ((\<lambda>s. s) ''gamma'')" by simp
  have v3: "length ((\<lambda>s. s) ''gamma'') \<le> 64" by simp
  have v4: "3 \<le> length ((\<lambda>s. s) ((\<lambda>s. s) ''gamma''))" by simp
  have f1: "c_teamId (env_create Written) \<notin> set (map t_id (teams db_one_owner))"
    by (simp add: demo_defs)
  have f2: "c_teamId (env_create Written) \<notin> set (map m_teamId (memberships db_one_owner))"
    by (simp add: demo_defs)
  have f3: "c_membershipId (env_create Written) \<notin> set (map m_id (memberships db_one_owner))"
    by (simp add: demo_defs)
  have w: "c_membershipWrite (env_create Written) = Written"
    by (simp add: env_create_def)
  from createTeam_two_writes [of "''gamma''" "\<lambda>s. s" "\<lambda>s. s" "env_create Written" db_one_owner "''u7''",
      OF v1 v2 v3 v4 f1 f2 f3] w
  have "filter (\<lambda>m. m_teamId m = c_teamId (env_create Written))
     (memberships (snd (createTeam (\<lambda>s. s) (\<lambda>s. s) ''u7'' ''gamma'' (env_create Written) db_one_owner))) =
     [\<lparr> m_id = c_membershipId (env_create Written), m_teamId = c_teamId (env_create Written),
        m_userId = ''u7'', m_role = owner, m_creationTime = c_now (env_create Written),
        m_deleted = False \<rparr>]"
    by blast
  then show ?thesis
    using f1 f2 f3 by (simp add: env_create_def)
qed

section \<open>Joining an organization\<close>

text \<open>
  Claim C7, as the specification has it: for every user and every live organization, two
  calls of \<open>add\<close> in a row return \<open>Added\<close> and then \<open>AlreadyMember\<close>, with exactly one live
  membership row of the pair afterwards.

  The first call returns \<open>already_member\<close> when the user is a member already: \<open>u2\<close> is a
  member of the first organization.
\<close>

theorem addMemberToTeam_existing_member_counterexample:
  "addMemberToTeam ''u2'' ''t1'' (env_add ''m3'') db_one_owner = Inr (already_member, db_one_owner)"
  by (simp add: addMemberToTeam_def findTeamByPrimaryKey_def live_membership_def demo_defs)

text \<open>
  Claim C7, amended: for an organization whose row exists and is not \<open>deleted\<close>, a user
  with no live membership in it and a fresh membership identifier, two calls of
  \<open>addMemberToTeam\<close> in a row return \<open>added\<close> and then \<open>already_member\<close>; the first call
  adds one row, the second none, and exactly one live membership row of the pair exists
  afterwards.
\<close>

theorem addMemberToTeam_twice:
  assumes "findTeamByPrimaryKey teamId d = Some team" and "\<not> t_deleted team"
    and "find (live_membership teamId userId) (memberships d) = None"
    and "a_newId e1 \<notin> set (map m_id (memberships d))"
  shows "\<exists>d1. addMemberToTeam userId teamId e1 d = Inr (added, d1) \<and>
           addMemberToTeam userId teamId e2 d1 = Inr (already_member, d1) \<and>
           length (filter (live_membership teamId userId) (memberships d1)) = 1 \<and>
           length (memberships d1) = Suc (length (memberships d))"
proof -
  let ?m = "\<lparr> m_id = a_newId e1, m_teamId = t_id team, m_userId = userId,
               m_role = member, m_creationTime = a_now e1, m_deleted = False \<rparr>"
  let ?d1 = "d\<lparr>memberships := memberships d @ [?m]\<rparr>"
  have tid: "t_id team = teamId"
    using assms(1) by (auto simp: findTeamByPrimaryKey_def find_Some_iff)
  have none: "\<forall>m \<in> set (memberships d). \<not> live_membership teamId userId m"
    using assms(3) by (simp add: find_None_iff)
  have first: "addMemberToTeam userId teamId e1 d = Inr (added, ?d1)"
    using assms by (simp add: addMemberToTeam_def save_by_id_fresh)
  have live: "live_membership teamId userId ?m"
    by (simp add: live_membership_def tid)
  have found: "find (live_membership teamId userId) (memberships ?d1) = Some ?m"
    using find_append_fresh [OF none] live by simp
  have second: "addMemberToTeam userId teamId e2 ?d1 = Inr (already_member, ?d1)"
    using assms(1,2) found by (simp add: addMemberToTeam_def findTeamByPrimaryKey_def)
  have one: "length (filter (live_membership teamId userId) (memberships ?d1)) = 1"
    using filter_none [OF none] live by simp
  show ?thesis
    using first second one by (intro exI [of _ ?d1]) simp
qed

theorem addMemberToTeam_twice_witness:
  "findTeamByPrimaryKey ''t1'' db_one_owner = Some acme \<and> \<not> t_deleted acme \<and>
   find (live_membership ''t1'' ''u3'') (memberships db_one_owner) = None \<and>
   a_newId (env_add ''m3'') \<notin> set (map m_id (memberships db_one_owner)) \<and>
   map_sum id fst (addMemberToTeam ''u3'' ''t1'' (env_add ''m3'') db_one_owner) = Inr added"
proof -
  have h1: "findTeamByPrimaryKey ''t1'' db_one_owner = Some acme"
    by (simp add: findTeamByPrimaryKey_def demo_defs)
  have h2: "\<not> t_deleted acme" by (simp add: acme_def)
  have h3: "find (live_membership ''t1'' ''u3'') (memberships db_one_owner) = None"
    by (simp add: live_membership_def demo_defs)
  have h4: "a_newId (env_add ''m3'') \<notin> set (map m_id (memberships db_one_owner))"
    by (simp add: demo_defs)
  from addMemberToTeam_twice [OF h1 h2 h3 h4, of "env_add ''m4''"]
  obtain d1 where "addMemberToTeam ''u3'' ''t1'' (env_add ''m3'') db_one_owner = Inr (added, d1)"
    by blast
  then show ?thesis
    using h1 h2 h3 h4 by simp
qed

section \<open>Deleting an organization\<close>

text \<open>
  Claim C3: \<open>add\<close> fails with NotFound for an organization that \<open>deleteOrganization\<close> has
  soft-deleted. The code sets \<open>markedDeleted\<close> in \<open>deleteTeam\<close> and tests \<open>deleted\<close> in
  \<open>addMemberToTeam\<close>: after \<open>deleteTeam\<close> the organization is not found by \<open>findTeamById\<close>,
  and \<open>addMemberToTeam\<close> still adds a member to it.
\<close>

theorem addMemberToTeam_after_deleteTeam:
  "findTeamById ''t1'' db_one_owner = Some acme \<and>
   findTeamById ''t1'' (deleteTeam ''t1'' db_one_owner) = None \<and>
   map_sum id fst (addMemberToTeam ''u3'' ''t1'' (env_add ''m3'') (deleteTeam ''t1'' db_one_owner)) =
     Inr added"
  by (simp add: addMemberToTeam_def deleteTeam_def deleteOrgSettings_def findTeamById_def
      findTeamByPrimaryKey_def live_membership_def live_settings_of_def save_by_id_def
      load_settings_def write_settings_def Let_def demo_defs)

text \<open>
  Claim C9: \<open>deleteTeam\<close> on an identifier that no organization has, or whose organization is
  soft-deleted already, changes no row (and has no error to raise); so deleting the same
  organization twice leaves the tables as the first deletion left them. The second part
  needs the primary key of the team table to be one.
\<close>

theorem deleteTeam_noop_idempotent:
  "((\<forall>t \<in> set (teams d). t_id t = teamId \<longrightarrow> t_markedDeleted t \<or> t_deleted t) \<longrightarrow>
      deleteTeam teamId d = d) \<and>
   (distinct (map t_id (teams d)) \<longrightarrow>
      deleteTeam teamId (deleteTeam teamId d) = deleteTeam teamId d)"
proof (intro conjI impI)
  assume "\<forall>t \<in> set (teams d). t_id t = teamId \<longrightarrow> t_markedDeleted t \<or> t_deleted t"
  then have "findTeamById teamId d = None"
    by (auto simp: findTeamById_def find_None_iff)
  then show "deleteTeam teamId d = d" by (simp add: deleteTeam_def)
next
  assume dist: "distinct (map t_id (teams d))"
  show "deleteTeam teamId (deleteTeam teamId d) = deleteTeam teamId d"
  proof (cases "findTeamById teamId d")
    case None
    then show ?thesis by (simp add: deleteTeam_def)
  next
    case (Some team)
    then have mem: "team \<in> set (teams d)" and tid: "t_id team = teamId"
      by (auto simp: findTeamById_def find_Some_iff)
    let ?team' = "team\<lparr>t_markedDeleted := True\<rparr>"
    from update_by_key_split [OF mem dist, of "\<lambda>_. ?team'"] obtain ys zs where
      split: "teams d = ys @ team # zs"
      and upd: "update_first (\<lambda>x. t_id x = t_id team) (\<lambda>_. ?team') (teams d) = ys @ ?team' # zs"
      by blast
    have saved: "save_by_id t_id ?team' (teams d) = ys @ ?team' # zs"
      using mem upd by (simp add: save_by_id_def image_iff) (metis)
    from dist split tid have others: "\<forall>t \<in> set ys \<union> set zs. t_id t \<noteq> teamId"
      by (force simp: image_iff)
    have after: "teams (deleteTeam teamId d) = ys @ ?team' # zs"
      using Some saved by (simp add: deleteTeam_def deleteOrgSettings_teams)
    have "findTeamById teamId (deleteTeam teamId d) = None"
      unfolding findTeamById_def after using others by (auto simp: find_None_iff)
    then show ?thesis by (simp add: deleteTeam_def)
  qed
qed

theorem deleteTeam_noop_idempotent_witness:
  "findTeamById ''t0'' db_one_owner = None \<and>
   deleteTeam ''t0'' db_one_owner = db_one_owner \<and>
   distinct (map t_id (teams db_one_owner)) \<and>
   findTeamById ''t1'' db_one_owner = Some acme \<and>
   deleteTeam ''t1'' (deleteTeam ''t1'' db_one_owner) = deleteTeam ''t1'' db_one_owner"
proof -
  have h1: "\<forall>t \<in> set (teams db_one_owner). t_id t = ''t0'' \<longrightarrow> t_markedDeleted t \<or> t_deleted t"
    by (simp add: demo_defs)
  have h2: "distinct (map t_id (teams db_one_owner))"
    by (simp add: demo_defs)
  have a: "findTeamById ''t0'' db_one_owner = None" "findTeamById ''t1'' db_one_owner = Some acme"
    by (simp_all add: findTeamById_def demo_defs)
  show ?thesis
    using h1 h2 a deleteTeam_noop_idempotent [of db_one_owner "''t0''"]
      deleteTeam_noop_idempotent [of db_one_owner "''t1''"]
    by blast
qed

section \<open>Organization settings\<close>

text \<open>
  Claim C4: for an existing settings row, \<open>setOrgSettings\<close> with an input that omits
  \<open>workspaceSharingDisabled\<close> leaves every table as it is; with an input that supplies it,
  the one row of the organization changes in that one field, and every other row and table
  stays as it is.
\<close>

theorem setOrgSettings_partial_update:
  assumes "find (live_settings_of orgId) (orgSettings d) = Some row"
  shows "setOrgSettings dflt orgId None d = d \<and>
    (\<exists>ys zs. orgSettings d = ys @ row # zs \<and>
       setOrgSettings dflt orgId (Some b) d =
         d\<lparr>orgSettings := ys @ row\<lparr>s_workspaceSharingDisabled := b\<rparr> # zs\<rparr>)"
proof -
  have live: "\<not> s_deleted row"
    using assms by (auto simp: find_Some_iff live_settings_of_def)
  have w_none: "write_settings ((load_settings row)\<lparr>e_workspaceSharingDisabled := None\<rparr>) row = row"
    using live by (simp add: write_settings_def load_settings_def)
  have w_some: "write_settings ((load_settings row)\<lparr>e_workspaceSharingDisabled := Some b\<rparr>) row =
      row\<lparr>s_workspaceSharingDisabled := b\<rparr>"
    using live by (simp add: write_settings_def load_settings_def)
  from find_split [OF assms] obtain ys zs where
    split: "orgSettings d = ys @ row # zs" and before: "\<forall>y \<in> set ys. \<not> live_settings_of orgId y"
    and here: "live_settings_of orgId row"
    by blast
  have upd: "update_first (live_settings_of orgId) f (orgSettings d) = ys @ f row # zs" for f
    unfolding split using update_first_at [OF before here] by simp
  have omitted: "setOrgSettings dflt orgId None d = d"
    using assms by (simp add: setOrgSettings_def Let_def upd w_none split [symmetric])
  have supplied: "setOrgSettings dflt orgId (Some b) d =
      d\<lparr>orgSettings := ys @ row\<lparr>s_workspaceSharingDisabled := b\<rparr> # zs\<rparr>"
    using assms by (simp add: setOrgSettings_def Let_def upd w_some)
  show ?thesis
    using omitted supplied split by blast
qed

theorem setOrgSettings_partial_update_witness:
  "find (live_settings_of ''t1'') (orgSettings db_one_owner) =
     Some \<lparr> s_orgId = ''t1'', s_workspaceSharingDisabled = True, s_deleted = False \<rparr> \<and>
   setOrgSettings False ''t1'' None db_one_owner = db_one_owner \<and>
   orgSettings (setOrgSettings False ''t1'' (Some False) db_one_owner) =
     [\<lparr> s_orgId = ''t1'', s_workspaceSharingDisabled = False, s_deleted = False \<rparr>]"
proof -
  have h: "find (live_settings_of ''t1'') (orgSettings db_one_owner) =
     Some \<lparr> s_orgId = ''t1'', s_workspaceSharingDisabled = True, s_deleted = False \<rparr>"
    by (simp add: live_settings_of_def demo_defs)
  have s: "orgSettings db_one_owner =
     [\<lparr> s_orgId = ''t1'', s_workspaceSharingDisabled = True, s_deleted = False \<rparr>]"
    by (simp add: demo_defs)
  from setOrgSettings_partial_update [OF h, of False False]
  obtain ys zs where
    a: "setOrgSettings False ''t1'' None db_one_owner = db_one_owner"
    and b: "orgSettings db_one_owner =
       ys @ \<lparr> s_orgId = ''t1'', s_workspaceSharingDisabled = True, s_deleted = False \<rparr> # zs"
    and c: "setOrgSettings False ''t1'' (Some False) db_one_owner =
       db_one_owner\<lparr>orgSettings :=
         ys @ \<lparr> s_orgId = ''t1'', s_workspaceSharingDisabled = True, s_deleted = False \<rparr>
                \<lparr>s_workspaceSharingDisabled := False\<rparr> # zs\<rparr>"
    by blast
  from b s have "ys = [] \<and> zs = []"
    by (cases ys) auto
  with a c h show ?thesis by simp
qed

section \<open>Renaming an organization\<close>

text \<open>
  Claim C5, as the specification has it: a rename to the slug of another live organization
  fails with Conflict, and a rename fails with NotFound whenever the organization is absent
  or soft-deleted.

  The code throws \<open>INVALID_VALUE\<close> for the slug that is taken, and \<open>BAD_REQUEST\<close> for an
  absent organization when neither a name nor a slug is supplied.
\<close>

theorem updateTeam_conflict_counterexample:
  "updateTeam (\<lambda>s. s) ''t2'' None (Some ''acme'') db_one_owner = Inl INVALID_VALUE \<and>
   findTeamById ''t0'' db_one_owner = None \<and>
   updateTeam (\<lambda>s. s) ''t0'' None None db_one_owner = Inl BAD_REQUEST"
  by (simp add: updateTeam_def and_trim_def falsy_def findTeamById_def findTeamBySlug_def
      slug_pattern_def slug_chars_def Let_def demo_defs)

text \<open>
  Claim C5, amended: when the organization is absent or soft-deleted, \<open>updateTeam\<close> fails
  with \<open>NOT_FOUND\<close> if a name or a slug is supplied (non-empty after trimming) and with
  \<open>BAD_REQUEST\<close> if neither is. When the organization is live and the new slug differs
  from its own, passes the length and pattern checks (as the name does) and is the slug of
  a live organization, \<open>updateTeam\<close> fails with \<open>INVALID_VALUE\<close>. It never fails with
  \<open>CONFLICT\<close>.
\<close>

theorem updateTeam_errors:
  "(findTeamById teamId d = None \<longrightarrow>
      updateTeam trim teamId team_name team_slug d =
        (if falsy (and_trim trim team_name) \<and> falsy (and_trim trim team_slug)
         then Inl BAD_REQUEST else Inl NOT_FOUND)) \<and>
   (\<forall>t s. findTeamById teamId d = Some t \<and> and_trim trim team_slug = Some s \<and> s \<noteq> '''' \<and>
          s \<noteq> t_slug t \<and> findTeamBySlug s d \<noteq> None \<and>
          (falsy (and_trim trim team_name) \<or> length (the (and_trim trim team_name)) \<le> 32) \<and>
          length s \<le> 63 \<and> slug_pattern s
      \<longrightarrow> updateTeam trim teamId team_name team_slug d = Inl INVALID_VALUE) \<and>
   updateTeam trim teamId team_name team_slug d \<noteq> Inl CONFLICT"
  by (auto simp add: updateTeam_def Let_def falsy_def split: option.splits)

theorem updateTeam_errors_witness:
  "findTeamById ''t2'' db_one_owner = Some beta \<and>
   findTeamBySlug ''acme'' db_one_owner \<noteq> None \<and> slug_pattern ''acme'' \<and>
   updateTeam (\<lambda>s. s) ''t2'' None (Some ''acme'') db_one_owner = Inl INVALID_VALUE \<and>
   findTeamById ''t0'' db_one_owner = None \<and>
   updateTeam (\<lambda>s. s) ''t0'' (Some ''Gamma'') None db_one_owner = Inl NOT_FOUND"
proof -
  have h1: "findTeamById ''t2'' db_one_owner = Some beta"
    by (simp add: findTeamById_def demo_defs)
  have h2: "findTeamBySlug ''acme'' db_one_owner \<noteq> None"
    by (simp add: findTeamBySlug_def demo_defs)
  have h3: "slug_pattern ''acme''"
    by (simp add: slug_pattern_def slug_chars_def)
  have h4: "and_trim (\<lambda>s. s) (Some ''acme'') = Some ''acme''" "falsy (and_trim (\<lambda>s. s) None)"
    "''acme'' \<noteq> t_slug beta" "\<not> falsy (and_trim (\<lambda>s. s) (Some ''Gamma''))"
    by (simp_all add: and_trim_def falsy_def beta_def)
  have h5: "findTeamById ''t0'' db_one_owner = None"
    by (simp add: findTeamById_def demo_defs)
  have a: "updateTeam (\<lambda>s. s) ''t2'' None (Some ''acme'') db_one_owner = Inl INVALID_VALUE"
    using updateTeam_errors [of "''t2''" db_one_owner "\<lambda>s. s" None "Some ''acme''"] h1 h2 h3 h4
    by simp
  have b: "updateTeam (\<lambda>s. s) ''t0'' (Some ''Gamma'') None db_one_owner = Inl NOT_FOUND"
    using updateTeam_errors [of "''t0''" db_one_owner "\<lambda>s. s" "Some ''Gamma''" None] h4 h5
    by simp
  show ?thesis using h1 h2 h3 h5 a b by simp
qed

section \<open>SSO client configuration\<close>

text \<open>
  Claim C8, as the specification has it: for a non-empty \<open>id\<close> and \<open>issuer\<close>, \<open>create\<close>
  inserts a record whose \<open>active\<close> flag is false. The code inserts the flag of its input,
  so a configuration passed with \<open>Active = true\<close> is stored active.
\<close>

theorem CreateOIDCClientConfig_active_counterexample:
  "CreateOIDCClientConfig 7 okta [] = Inr (okta, [\<lparr> row_config = okta, row_deleted = False \<rparr>]) \<and>
   ID okta \<noteq> 0 \<and> Issuer okta \<noteq> '''' \<and> Active okta"
  by (simp add: CreateOIDCClientConfig_def okta_def)

text \<open>
  Claim C8, amended: \<open>CreateOIDCClientConfig\<close> fails with the validation error
  \<open>id must be set\<close> exactly when the id is nil, and with \<open>issuer must be set\<close> exactly when
  the id is set and the issuer is empty; for a non-empty id and issuer whose id is not in
  the table yet, it inserts one row, not deleted, whose \<open>active\<close> flag is the flag of the
  input (false when the caller leaves the field at its zero value).
\<close>

theorem CreateOIDCClientConfig_stores_input:
  "(CreateOIDCClientConfig now cfg tbl = Inl id_must_be_set \<longleftrightarrow> ID cfg = 0) \<and>
   (CreateOIDCClientConfig now cfg tbl = Inl issuer_must_be_set \<longleftrightarrow> ID cfg \<noteq> 0 \<and> Issuer cfg = '''') \<and>
   (ID cfg \<noteq> 0 \<and> Issuer cfg \<noteq> '''' \<and> ID cfg \<notin> set (map (\<lambda>r. ID (row_config r)) tbl) \<longrightarrow>
      (\<exists>stored. CreateOIDCClientConfig now cfg tbl =
                  Inr (cfg, tbl @ [\<lparr> row_config = stored, row_deleted = False \<rparr>]) \<and>
                Active stored = Active cfg \<and> ID stored = ID cfg \<and> Issuer stored = Issuer cfg \<and>
                OrganizationID stored = OrganizationID cfg \<and> Data stored = Data cfg))"
  by (simp add: CreateOIDCClientConfig_def Let_def)

theorem CreateOIDCClientConfig_stores_input_witness:
  "ID okta \<noteq> 0 \<and> Issuer okta \<noteq> '''' \<and> ID okta \<notin> set (map (\<lambda>r. ID (row_config r)) []) \<and>
   map (\<lambda>r. Active (row_config r)) (snd (projr (CreateOIDCClientConfig 7 okta []))) = [True] \<and>
   CreateOIDCClientConfig 7 (okta\<lparr>ID := 0\<rparr>) [] = Inl id_must_be_set"
proof -
  have h: "ID okta \<noteq> 0" "Issuer okta \<noteq> ''''" "ID okta \<notin> set (map (\<lambda>r. ID (row_config r)) [])"
    "Active okta"
    by (simp_all add: okta_def)
  from CreateOIDCClientConfig_stores_input [of 7 okta "[]"] h
  obtain stored where "CreateOIDCClientConfig 7 okta [] =
      Inr (okta, [] @ [\<lparr> row_config = stored, row_deleted = False \<rparr>])" "Active stored = Active okta"
    by blast
  moreover have "CreateOIDCClientConfig 7 (okta\<lparr>ID := 0\<rparr>) [] = Inl id_must_be_set"
    using CreateOIDCClientConfig_stores_input [of 7 "okta\<lparr>ID := 0\<rparr>" "[]"] by simp
  ultimately show ?thesis using h by simp
qed

section \<open>Resetting the generic invite\<close>

text \<open>
  Claim C10: the invite that \<open>resetGenericInvite\<close> creates and stores has the role
  \<open>member\<close>, whatever the tables hold before, the role of the invite it replaces included.
\<close>

theorem resetGenericInvite_role_member:
  "i_role (fst (resetGenericInvite teamId e d)) = member \<and>
   fst (resetGenericInvite teamId e d) = newInvite teamId e \<and>
   fst (resetGenericInvite teamId e d) \<in> set (invites (snd (resetGenericInvite teamId e d)))"
  by (simp add: resetGenericInvite_def Let_def newInvite_def save_by_id_mem)

text \<open>
  Claim C6: after \<open>N \<ge> 1\<close> calls of \<open>resetGenericInvite\<close> in sequence for one
  organization, exactly one generic invite of the organization has an empty
  \<open>invalidationTime\<close>, the invite that the last call created; the invite of every earlier
  call is in the table with a non-empty \<open>invalidationTime\<close>; and no row has left the table:
  the identifiers of the table are those it had before, in the same order, followed by the
  \<open>N\<close> new ones. The table starts in a state of the data model (the identifier is a primary
  key, at most one generic invite of the organization is valid), every call draws a fresh
  identifier, and the clock's timestamp is not the empty string.
\<close>

theorem resetGenericInvites_single_valid:
  assumes "distinct (map i_id (invites d))"
    and "length (valid_generic_of teamId d) \<le> 1"
    and "distinct (map r_newId es)"
    and "set (map r_newId es) \<inter> set (map i_id (invites d)) = {}"
    and "\<forall>e \<in> set es. r_invalidatedAt e \<noteq> ''''"
    and "es \<noteq> []"
  shows "valid_generic_of teamId (resetGenericInvites teamId es d) = [newInvite teamId (last es)] \<and>
    (\<forall>e \<in> set (butlast es). \<exists>j \<in> set (invites (resetGenericInvites teamId es d)).
        i_id j = r_newId e \<and> i_invalidationTime j \<noteq> '''') \<and>
    map i_id (invites (resetGenericInvites teamId es d)) = map i_id (invites d) @ map r_newId es"
  using resetGenericInvites_invariant [OF assms(1-5)] assms(6) by blast

theorem resetGenericInvites_single_valid_witness:
  "distinct (map i_id (invites db_one_owner)) \<and>
   length (valid_generic_of ''t1'' db_one_owner) = 1 \<and>
   distinct (map r_newId [env_reset ''i1'', env_reset ''i2'']) \<and>
   set (map r_newId [env_reset ''i1'', env_reset ''i2'']) \<inter> set (map i_id (invites db_one_owner)) = {} \<and>
   r_invalidatedAt (env_reset ''i1'') \<noteq> '''' \<and> r_invalidatedAt (env_reset ''i2'') \<noteq> '''' \<and>
   valid_generic_of ''t1'' (resetGenericInvites ''t1'' [env_reset ''i1'', env_reset ''i2''] db_one_owner) =
     [newInvite ''t1'' (env_reset ''i2'')] \<and>
   map i_id (invites (resetGenericInvites ''t1'' [env_reset ''i1'', env_reset ''i2''] db_one_owner)) =
     [''i0'', ''i1'', ''i2'']"
proof -
  let ?es = "[env_reset ''i1'', env_reset ''i2'']"
  have h1: "distinct (map i_id (invites db_one_owner))"
    by (simp add: demo_defs)
  have v: "length (valid_generic_of ''t1'' db_one_owner) = 1"
    by (simp add: valid_generic_of_def is_generic_valid_def demo_defs)
  then have h2: "length (valid_generic_of ''t1'' db_one_owner) \<le> 1" by simp
  have h3: "distinct (map r_newId ?es)"
    by (simp add: env_reset_def)
  have h4: "set (map r_newId ?es) \<inter> set (map i_id (invites db_one_owner)) = {}"
    by (simp add: demo_defs)
  have h5: "\<forall>e \<in> set ?es. r_invalidatedAt e \<noteq> ''''"
    by (simp add: env_reset_def)
  have h6: "?es \<noteq> []" by simp
  have ids: "map i_id (invites db_one_owner) = [''i0'']" "map r_newId ?es = [''i1'', ''i2'']"
    by (simp_all add: demo_defs)
  show ?thesis
    using resetGenericInvites_single_valid [OF h1 h2 h3 h4 h5 h6] h1 v h3 h4 h5 ids
    by simp
qed

end
